theory Spec2Isabelle
  imports Main "HOL-Library.Sublist" "HOL-Library.Word"
begin

section \<open>Package git: errors, commands and the command executor\<close>

text \<open>
  Go's \<open>error\<close> values of the two packages. \<open>ErrNoChanges\<close> and \<open>ErrTimeout\<close> are the
  package-level sentinels; \<open>ExitError\<close> is what \<open>exec.Cmd.Run\<close> returns, \<open>ErrorsNew\<close> a fresh
  \<open>errors.New\<close>, \<open>Wrap\<close> is \<open>errors.Wrap\<close> of github.com/pkg/errors, \<open>Errorf\<close> is
  \<open>fmt.Errorf\<close>, \<open>DecodeError\<close> and \<open>MarshalError\<close> come from encoding/json, and
  \<open>External\<close> stands for any error handed in by a collaborator (the job tracker).
  \<open>PushError\<close> is declared in a file of package git that is not part of the sources at
  hand; it is kept as a constructor, with the URL and the error it is given.
\<close>

datatype error =
    ErrNoChanges
  | ErrTimeout
  | ExitError string
  | ErrorsNew string
  | Wrap error string
  | PushError string error
  | Errorf string
  | DecodeError string
  | MarshalError string
  | External string

record Repo =
  URL :: string
  Branch :: string
  Key :: string
  Path :: string

record Config =
  SyncTag :: string
  NotesRef :: string
  UserName :: string
  UserEmail :: string

record Checkout =
  repo :: Repo
  Dir :: string
  Config :: Config
  realNotesRef :: string

record 'spec Note =
  JobID :: string
  Spec :: 'spec

text \<open>
  One \<open>exec.Cmd\<close> as \<open>execGitCmd\<close> builds it: the program, its arguments, \<open>c.Dir\<close>
  (empty: the directory of the calling process), \<open>c.Env\<close>, and whether standard output
  goes to a buffer of the caller or to \<open>ioutil.Discard\<close>.
\<close>

record cmd =
  cmd_name :: string
  cmd_args :: "string list"
  cmd_dir :: string
  cmd_env :: "string list"
  cmd_stdout_kept :: bool

text \<open>What \<open>c.Run()\<close> gives back: its error (\<open>None\<close> is nil), and the two output streams.\<close>

record proc_result =
  run_err :: "string option"
  out :: string
  errOut :: string

text \<open>
  Everything outside the package that the git operations rest on: the operating system
  running a command (its outcome may depend on every command run before), Go's \<open>%q\<close>
  quoting, and encoding/json for notes.
\<close>

record 'spec ext =
  run :: "cmd list \<Rightarrow> cmd \<Rightarrow> proc_result"
  quote :: "string \<Rightarrow> string"
  json_marshal :: "'spec Note \<Rightarrow> string + string"
  json_decode :: "string \<Rightarrow> string + 'spec Note"

text \<open>
  The state the operations thread through: the commands run so far, oldest first, and
  the lines written by the builtin \<open>println\<close>.
\<close>

record st =
  trace :: "cmd list"
  printed :: "string list"

definition base :: string where
  "base = ''GIT_SSH_COMMAND=ssh -o UserKnownHostsFile=/dev/null -o StrictHostKeyChecking=no''"

definition env :: "(string \<Rightarrow> string) \<Rightarrow> string \<Rightarrow> string list" where
  "env q keyPath =
     (if keyPath = [] then [base]
      else [base @ '' -i '' @ q keyPath, ''GIT_TERMINAL_PROMPT=0''])"

text \<open>
  \<open>bufio.Scanner\<close> with its default split function \<open>ScanLines\<close>: the text is cut at
  every newline, one trailing carriage return is dropped from each line, and a last
  line without a newline is a line unless it is empty. (The scanner's limit of 64 KiB
  on one line is left out: no statement below depends on what the scan finds.)
\<close>

definition dropCR :: "string \<Rightarrow> string" where
  "dropCR l = (if l \<noteq> [] \<and> last l = CHR 0x0D then butlast l else l)"

fun scan_lines :: "string \<Rightarrow> string \<Rightarrow> string list" where
  "scan_lines acc [] = (if acc = [] then [] else [dropCR (rev acc)])"
| "scan_lines acc (c # cs) =
     (if c = CHR 0x0A then dropCR (rev acc) # scan_lines [] cs
      else scan_lines (c # acc) cs)"

definition findFatalMessage :: "string \<Rightarrow> string" where
  "findFatalMessage output =
     (case find (prefix ''fatal:'') (scan_lines [] output) of
        Some l \<Rightarrow> l
      | None \<Rightarrow> [])"

text \<open>
  The command \<open>execGitCmd\<close> sets up before it runs it: \<open>exec.Command("git", args...)\<close>
  with \<open>c.Dir\<close>, \<open>c.Env\<close> and \<open>c.Stdout\<close> assigned.
\<close>

definition git_command :: "(string \<Rightarrow> string) \<Rightarrow> string \<Rightarrow> string \<Rightarrow> bool \<Rightarrow> string list \<Rightarrow> cmd" where
  "git_command q dir keyPath keep args =
     \<lparr>cmd_name = ''git'', cmd_args = args, cmd_dir = dir, cmd_env = env q keyPath,
      cmd_stdout_kept = keep\<rparr>"

definition execGitCmd ::
  "'spec ext \<Rightarrow> string \<Rightarrow> string \<Rightarrow> bool \<Rightarrow> string list \<Rightarrow> st \<Rightarrow> (error option \<times> string) \<times> st"
where
  "execGitCmd X dir keyPath keep args s =
     (let c = git_command (quote X) dir keyPath keep args;
          r = run X (trace s) c;
          s1 = s\<lparr>trace := trace s @ [c]\<rparr>;
          captured = (if keep then out r else [])
      in case run_err r of
           None \<Rightarrow> ((None, captured), s1)
         | Some e \<Rightarrow>
             (let s2 = s1\<lparr>printed := printed s1 @ [errOut r]\<rparr>;
                  msg = findFatalMessage (errOut r)
              in ((Some (if msg \<noteq> [] then ErrorsNew msg else ExitError e), captured), s2)))"

text \<open>\<open>strings.Split(s, "\n")\<close>: one more piece than there are newlines.\<close>

fun Split_nl :: "string \<Rightarrow> string list" where
  "Split_nl [] = [[]]"
| "Split_nl (c # cs) =
     (if c = CHR 0x0A then [] # Split_nl cs
      else (case Split_nl cs of p # ps \<Rightarrow> (c # p) # ps | [] \<Rightarrow> [[c]]))"

definition revlist :: "'spec ext \<Rightarrow> string \<Rightarrow> string \<Rightarrow> st \<Rightarrow> (error + string list) \<times> st" where
  "revlist X path ref s =
     (case execGitCmd X path [] True [''rev-list'', ref] s of
        ((Some err, _), s') \<Rightarrow> (Inl err, s')
      | ((None, output), s') \<Rightarrow> (Inr (Split_nl output), s'))"

definition RevisionsBetween ::
  "'spec ext \<Rightarrow> Checkout \<Rightarrow> string \<Rightarrow> string \<Rightarrow> st \<Rightarrow> (error + string list) \<times> st" where
  "RevisionsBetween X c ref1 ref2 s = revlist X (Dir c) (ref1 @ ''..'' @ ref2) s"

definition RevisionsBefore ::
  "'spec ext \<Rightarrow> Checkout \<Rightarrow> string \<Rightarrow> st \<Rightarrow> (error + string list) \<times> st" where
  "RevisionsBefore X c ref s = revlist X (Dir c) ref s"

text \<open>\<open>strings.Join(ps, "\n")\<close>, to say what splitting keeps.\<close>

fun Join_nl :: "string list \<Rightarrow> string" where
  "Join_nl [] = []"
| "Join_nl [p] = p"
| "Join_nl (p # q # ps) = p @ CHR 0x0A # Join_nl (q # ps)"


subsection \<open>Operations of operations.go\<close>





definition getNote ::
  "'spec ext \<Rightarrow> string \<Rightarrow> string \<Rightarrow> string \<Rightarrow> st \<Rightarrow> (error + 'spec Note) \<times> st" where
  "getNote X workingDir notesRef revision s =
     (case execGitCmd X workingDir [] True [''notes'', ''--ref'', notesRef, ''show'', revision] s of
        ((Some err, _), s') \<Rightarrow> (Inl err, s')
      | ((None, output), s') \<Rightarrow>
          (case json_decode X output of
             Inl e \<Rightarrow> (Inl (DecodeError e), s')
           | Inr note \<Rightarrow> (Inr note, s')))"





subsection \<open>Methods of Checkout (repo.go)\<close>


definition GetNote :: "'spec ext \<Rightarrow> Checkout \<Rightarrow> string \<Rightarrow> st \<Rightarrow> (error + 'spec Note) \<times> st" where
  "GetNote X c revision s = getNote X (Dir c) (realNotesRef c) revision s"

text \<open>
  \<open>Clean\<close> removes the clone. \<open>os.RemoveAll\<close> is the operating system's: it takes the
  path and the file system and gives back its error and the file system it leaves.
  \<open>Clean\<close> has no result and drops that error.
\<close>

definition Clean :: "(string \<Rightarrow> 'fs \<Rightarrow> error option \<times> 'fs) \<Rightarrow> Checkout \<Rightarrow> 'fs \<Rightarrow> 'fs" where
  "Clean RemoveAll c fs = (if Dir c \<noteq> [] then snd (RemoveAll (Dir c) fs) else fs)"

text \<open>The zero value \<open>Checkout{}\<close>.\<close>

definition zero_Checkout :: Checkout where
  "zero_Checkout =
     \<lparr>repo = \<lparr>URL = [], Branch = [], Key = [], Path = []\<rparr>, Dir = [],
      Config = \<lparr>SyncTag = [], NotesRef = [], UserName = [], UserEmail = []\<rparr>,
      realNotesRef = []\<rparr>"

text \<open>
  A file system to run \<open>Clean\<close> on: the paths that exist. Removing a path takes it and
  everything below it away and succeeds, also when there is nothing to take.
\<close>

definition below :: "string \<Rightarrow> string \<Rightarrow> bool" where
  "below p q = (q = p \<or> prefix (p @ ''/'') q)"

definition RemoveAll_paths :: "string \<Rightarrow> string list \<Rightarrow> error option \<times> string list" where
  "RemoveAll_paths p fs = (None, filter (\<lambda>q. \<not> below p q) fs)"

text \<open>
  An operating system for the examples: a script of outcomes, the n-th command run gets
  the n-th outcome of the script, and succeeds in silence once the script is used up.
\<close>

definition ok_result :: "string \<Rightarrow> proc_result" where
  "ok_result output = \<lparr>run_err = None, out = output, errOut = []\<rparr>"

definition failed_result :: "string \<Rightarrow> proc_result" where
  "failed_result diagnostics = \<lparr>run_err = Some ''exit status 1'', out = [], errOut = diagnostics\<rparr>"

definition scripted :: "proc_result list \<Rightarrow> string ext" where
  "scripted script =
     \<lparr>run = (\<lambda>tr c. if length tr < length script then script ! length tr else ok_result []),
      quote = (\<lambda>k. ''\"'' @ k @ ''\"''),
      json_marshal = (\<lambda>n. Inr (''{\"JobID\":\"'' @ JobID n @ ''\",\"Spec\":'' @ Spec n @ ''}'')),
      json_decode = (\<lambda>b. if b = [] then Inl ''EOF'' else Inr \<lparr>JobID = b, Spec = ''null''\<rparr>)\<rparr>"

definition st0 :: st where
  "st0 = \<lparr>trace = [], printed = []\<rparr>"

definition clone1 :: Checkout where
  "clone1 =
     \<lparr>repo = \<lparr>URL = ''git@host:conf'', Branch = ''master'', Key = ''/k'', Path = ''deploy''\<rparr>,
      Dir = ''/tmp/flux-gitclone1/repo'',
      Config = \<lparr>SyncTag = ''flux-sync'', NotesRef = ''flux'', UserName = ''u'', UserEmail = ''e''\<rparr>,
      realNotesRef = ''refs/notes/flux''\<rparr>"





section \<open>Package main: polling with backoff\<close>

text \<open>
  \<open>time.Duration\<close> is an \<open>int64\<close> count of nanoseconds: products wrap around and
  comparisons are signed. A \<open>time.Time\<close> is modelled as an integer count of nanoseconds
  (its own range, far wider than that of a duration, is not a concern of the loop).
\<close>

type_synonym duration = "64 word"

text \<open>
  What a run of \<open>backoff\<close> does to the world, in order: it invokes the predicate and it
  sleeps. The world holds the wall clock that \<open>time.Now().UTC()\<close> reads, the record of
  those two kinds of events, and the variables the predicate's closure reads and writes.
\<close>

datatype event = Invoked | Slept duration

record 'u world =
  clock :: int
  events :: "event list"
  vars :: 'u

text \<open>
  A predicate \<open>func() (bool, error)\<close>: from its variables and the time at which it is
  called it gives its two results, its variables afterwards, and the time it took.
\<close>

type_synonym 'u predicate = "'u \<Rightarrow> int \<Rightarrow> (bool \<times> error option) \<times> 'u \<times> int"

definition invoke :: "'u predicate \<Rightarrow> 'u world \<Rightarrow> (bool \<times> error option) \<times> 'u world" where
  "invoke f w =
     (case f (vars w) (clock w) of
        (r, u, elapsed) \<Rightarrow>
          (r, \<lparr>clock = clock w + elapsed, events = events w @ [Invoked], vars = u\<rparr>))"

text \<open>
  \<open>time.Sleep(d)\<close> pauses for \<open>d\<close> (taken to be exact here), and returns at once when
  \<open>d\<close> is negative or zero.
\<close>

definition Sleep :: "duration \<Rightarrow> 'u world \<Rightarrow> 'u world" where
  "Sleep d w = w\<lparr>clock := clock w + max 0 (sint d), events := events w @ [Slept d]\<rparr>"

text \<open>The source's \<open>min\<close> on durations.\<close>

definition min_duration :: "duration \<Rightarrow> duration \<Rightarrow> duration" where
  "min_duration t1 t2 = (if t1 <s t2 then t1 else t2)"

text \<open>The end of the loop body: \<open>if time.Now().UTC().Add(delay).Before(finish)\<close>, sleep.\<close>

definition sleep_if_time :: "int \<Rightarrow> duration \<Rightarrow> 'u world \<Rightarrow> 'u world" where
  "sleep_if_time finish delay w = (if clock w + sint delay < finish then Sleep delay w else w)"

text \<open>
  The \<open>for\<close> loop of \<open>backoff\<close>, from its condition on: \<open>delay\<close> is the loop variable,
  \<open>finish\<close> the deadline. The loop has no bound of its own, so its result is an option:
  \<open>None\<close> is a run that never returns.
\<close>

partial_function (option) backoff_loop ::
  "'u predicate \<Rightarrow> duration \<Rightarrow> duration \<Rightarrow> int \<Rightarrow> duration \<Rightarrow> 'u world \<Rightarrow>
     (error option \<times> 'u world) option"
where
  "backoff_loop f factor maxDelay finish delay w =
     (if clock w < finish then
        (case invoke f w of
           ((ok, err), w1) \<Rightarrow>
             if ok \<or> err \<noteq> None then Some (err, w1)
             else backoff_loop f factor maxDelay finish
                    (min_duration (delay * factor) maxDelay)
                    (sleep_if_time finish delay w1))
      else Some (Some ErrTimeout, w))"

declare backoff_loop.simps [code]

definition backoff ::
  "duration \<Rightarrow> duration \<Rightarrow> duration \<Rightarrow> duration \<Rightarrow> 'u predicate \<Rightarrow> 'u world \<Rightarrow>
     (error option \<times> 'u world) option"
where
  "backoff initialDelay factor maxFactor timeout f w =
     (let maxDelay = initialDelay * maxFactor;
          finish = clock w + sint timeout
      in backoff_loop f factor maxDelay finish initialDelay w)"

text \<open>
  The value of the loop variable \<open>delay\<close> at the n-th pass through the loop: the
  initial delay, then the post statement \<open>delay = min(delay*factor, maxDelay)\<close> each time.
\<close>

primrec delay_at :: "duration \<Rightarrow> duration \<Rightarrow> duration \<Rightarrow> nat \<Rightarrow> duration" where
  "delay_at initialDelay factor maxFactor 0 = initialDelay"
| "delay_at initialDelay factor maxFactor (Suc n) =
     min_duration (delay_at initialDelay factor maxFactor n * factor) (initialDelay * maxFactor)"

text \<open>
  A record of events follows the delays from the n-th on when every invocation is
  followed by no sleep or by one sleep, of the delay the loop variable then has.
\<close>

fun follows :: "duration \<Rightarrow> duration \<Rightarrow> duration \<Rightarrow> nat \<Rightarrow> event list \<Rightarrow> bool" where
  "follows i fa mf n [] = True"
| "follows i fa mf n (Invoked # Slept d # evs) =
     (d = delay_at i fa mf n \<and> follows i fa mf (Suc n) evs)"
| "follows i fa mf n (Invoked # evs) = follows i fa mf (Suc n) evs"
| "follows i fa mf n (Slept d # evs) = False"

definition invocations :: "event list \<Rightarrow> nat" where
  "invocations evs = length (filter (\<lambda>e. e = Invoked) evs)"

definition Millisecond :: duration where
  "Millisecond = 1000000"

definition Minute :: duration where
  "Minute = 60000000000"

subsection \<open>Waiting for a job\<close>

text \<open>
  Modelled from the spec: the declarations of packages job and history, which are not
  among the sources at hand. A job's status has a \<open>StatusString\<close> among queued,
  in-progress, succeeded and failed, an opaque \<open>Result\<close> and an \<open>Error\<close>; the result of
  a finished job is expected to be commit-event metadata, which carries the revision.
  \<open>OtherType\<close> is a result of any other dynamic type, with the name \<open>%T\<close> prints for it.
\<close>

record CommitEventMetadata =
  Revision :: string

datatype dyn = Metadata CommitEventMetadata | OtherType string

record job_Status =
  StatusString :: string
  Result :: dyn
  Error :: "error option"

definition StatusFailed :: string where
  "StatusFailed = ''failed''"

definition StatusSucceeded :: string where
  "StatusSucceeded = ''succeeded''"

text \<open>
  The variables of \<open>awaitJob\<close>'s closure: the client it queries (with whatever state the
  tracker behind it has), the variable \<open>result\<close> it assigns the job's result to, and
  \<open>commitRef\<close>, the local variable \<open>awaitJob\<close> declares and returns.
\<close>

record 't await_vars =
  client :: 't
  result :: CommitEventMetadata
  commitRef :: string

text \<open>
  \<open>client.JobStatus(instance, jobID)\<close>: from the client's state and the time of the call,
  the status or an error, the client's state afterwards and the time the query took.
\<close>

type_synonym 't JobStatus = "'t \<Rightarrow> int \<Rightarrow> string \<Rightarrow> string \<Rightarrow> (error + job_Status) \<times> 't \<times> int"

definition awaitJob_poll :: "'t JobStatus \<Rightarrow> string \<Rightarrow> string \<Rightarrow> 't await_vars predicate" where
  "awaitJob_poll JobStatus noInstanceID jobID u now =
     (case JobStatus (client u) now noInstanceID jobID of
        (Inl err, t, elapsed) \<Rightarrow> ((True, Some err), u\<lparr>client := t\<rparr>, elapsed)
      | (Inr j, t, elapsed) \<Rightarrow>
          if StatusString j = StatusFailed then ((True, Error j), u\<lparr>client := t\<rparr>, elapsed)
          else if StatusString j = StatusSucceeded then
            (case Result j of
               Metadata m \<Rightarrow> ((True, None), u\<lparr>client := t, result := m\<rparr>, elapsed)
             | OtherType ty \<Rightarrow>
                 ((True, Some (Errorf (''Unknown result type: '' @ ty))),
                  u\<lparr>client := t, result := \<lparr>Revision = []\<rparr>\<rparr>, elapsed))
          else ((False, None), u\<lparr>client := t\<rparr>, elapsed))"

definition awaitJob ::
  "'t JobStatus \<Rightarrow> string \<Rightarrow> string \<Rightarrow> 't await_vars world \<Rightarrow>
     ((string \<times> error option) \<times> 't await_vars world) option"
where
  "awaitJob JobStatus noInstanceID jobID w =
     (let w0 = w\<lparr>vars := (vars w)\<lparr>commitRef := []\<rparr>\<rparr>
      in case backoff (100 * Millisecond) 2 100 (1 * Minute)
                (awaitJob_poll JobStatus noInstanceID jobID) w0 of
           None \<Rightarrow> None
         | Some (err, w') \<Rightarrow> Some ((commitRef (vars w'), err), w'))"

text \<open>Predicates and a tracker to run the loop on.\<close>

definition never_done :: "nat predicate" where
  "never_done u now = ((False, None), Suc u, 100000000)"

definition done_on_third :: "nat predicate" where
  "done_on_third u now = ((Suc u = 3, None), Suc u, 1000)"

definition world0 :: "nat world" where
  "world0 = \<lparr>clock = 0, events = [], vars = 0\<rparr>"

definition tracker_succeeded :: "unit JobStatus" where
  "tracker_succeeded t now inst jobID =
     (Inr \<lparr>StatusString = ''succeeded'', Result = Metadata \<lparr>Revision = ''deadbeef''\<rparr>, Error = None\<rparr>,
      t, 1000)"

definition await0 :: "unit await_vars world" where
  "await0 = \<lparr>clock = 0, events = [], vars = \<lparr>client = (), result = \<lparr>Revision = []\<rparr>, commitRef = []\<rparr>\<rparr>"

section \<open>HTTP server: registering a daemon\<close>

text \<open>
  What the handler does to its \<open>http.ResponseWriter\<close>, call by call, and the state it
  works on: the calls made on the response so far, the service with its registry of
  daemons, the arguments of every \<open>RegisterDaemon\<close> call, and the clients closed.
\<close>

datatype resp_call = WriteHeader nat | Write string

record ('reg, 'c) server =
  response :: "resp_call list"
  service :: 'reg
  registered :: "(string \<times> 'c) list"
  closed :: "'c list"

text \<open>
  What \<open>doRegister\<close> calls and is taken as given: \<open>getInstanceID\<close>, which reads the
  instance from a header of the request (the header's key and the default instance are
  constants of package flux); \<open>websocket.Upgrade\<close>, which gives the message of its
  error or the socket, and the calls on the response it leaves behind; \<open>fmt.Sprintf\<close>
  of a format without operands;
  the three constructors of package rpc; and the service's \<open>RegisterDaemon\<close>, which
  blocks until the daemon disconnects (\<open>None\<close>: it never does) and whose error the
  handler ignores.
\<close>

record ('req, 'ws, 'reg, 'c) deps =
  getInstanceID :: "'req \<Rightarrow> string"
  Upgrade :: "'req \<Rightarrow> resp_call list \<Rightarrow> (string + 'ws) \<times> resp_call list"
  Sprintf :: "string \<Rightarrow> string"
  NewClientV4 :: "'ws \<Rightarrow> 'c"
  NewClientV5 :: "'ws \<Rightarrow> 'c"
  NewClientV6 :: "'ws \<Rightarrow> 'c"
  RegisterDaemon :: "'reg \<Rightarrow> string \<Rightarrow> 'c \<Rightarrow> 'reg option"

definition StatusBadRequest :: nat where
  "StatusBadRequest = 400"

definition doRegister ::
  "('req, 'ws, 'reg, 'c) deps \<Rightarrow> 'req \<Rightarrow> ('ws \<Rightarrow> 'c) \<Rightarrow> ('reg, 'c) server \<Rightarrow>
     ('reg, 'c) server option"
where
  "doRegister D r newRPCFn s =
     (let inst = getInstanceID D r
      in case Upgrade D r (response s) of
           (Inl err, w) \<Rightarrow>
             Some (s\<lparr>response := w @ [WriteHeader StatusBadRequest, Write (Sprintf D err)]\<rparr>)
         | (Inr ws, w) \<Rightarrow>
             (let rpcClient = newRPCFn ws
              in case RegisterDaemon D (service s) inst rpcClient of
                   None \<Rightarrow> None
                 | Some reg \<Rightarrow>
                     Some (s\<lparr>response := w, service := reg,
                             registered := registered s @ [(inst, rpcClient)],
                             closed := closed s @ [rpcClient]\<rparr>)))"

definition RegisterV4 ::
  "('req, 'ws, 'reg, 'c) deps \<Rightarrow> 'req \<Rightarrow> ('reg, 'c) server \<Rightarrow> ('reg, 'c) server option" where
  "RegisterV4 D r s = doRegister D r (\<lambda>conn. NewClientV4 D conn) s"

definition RegisterV5 ::
  "('req, 'ws, 'reg, 'c) deps \<Rightarrow> 'req \<Rightarrow> ('reg, 'c) server \<Rightarrow> ('reg, 'c) server option" where
  "RegisterV5 D r s = doRegister D r (\<lambda>conn. NewClientV5 D conn) s"

definition RegisterV6 ::
  "('req, 'ws, 'reg, 'c) deps \<Rightarrow> 'req \<Rightarrow> ('reg, 'c) server \<Rightarrow> ('reg, 'c) server option" where
  "RegisterV6 D r s = doRegister D r (\<lambda>conn. NewClientV6 D conn) s"

text \<open>
  A server to run the handler on: a request is its list of header lines, the upgrade
  succeeds when one of them asks for a websocket, and the registry is the list of the
  instances registered.
\<close>

definition deps0 :: "(string list, nat, string list, string) deps" where
  "deps0 =
     \<lparr>getInstanceID = (\<lambda>r. ''default''),
      Upgrade = (\<lambda>r w. if ''Upgrade: websocket'' \<in> set r then (Inr 7, w)
                        else (Inl ''websocket: not a websocket handshake'', w)),
      Sprintf = (\<lambda>m. m),
      NewClientV4 = (\<lambda>ws. ''v4''),
      NewClientV5 = (\<lambda>ws. ''v5''),
      NewClientV6 = (\<lambda>ws. ''v6''),
      RegisterDaemon = (\<lambda>reg inst c. Some (inst # reg))\<rparr>"

definition server0 :: "(string list, string) server" where
  "server0 = \<lparr>response = [], service = [], registered = [], closed = []\<rparr>"

section \<open>Properties of package git\<close>

subsection \<open>What one run of a command leaves behind\<close>

lemma execGitCmd_run:
  "execGitCmd X dir k keep args s = ((e, outp), s') \<Longrightarrow>
     trace s' = trace s @ [git_command (quote X) dir k keep args] \<and>
     (e = None \<longleftrightarrow> run_err (run X (trace s) (git_command (quote X) dir k keep args)) = None) \<and>
     outp = (if keep then out (run X (trace s) (git_command (quote X) dir k keep args)) else []) \<and>
     (\<forall>x. e = Some x \<longrightarrow> (\<exists>m. x = ExitError m \<or> x = ErrorsNew m))"
  by (auto simp: execGitCmd_def Let_def split: option.splits if_splits)


subsection \<open>Splitting at newlines\<close>

lemma Split_nl_not_Nil: "Split_nl t \<noteq> []"
  by (induction t) (auto split: list.splits)

lemma Join_nl_Cons: "Join_nl ((c # p) # ps) = c # Join_nl (p # ps)"
  by (cases ps) simp_all

lemma Join_nl_Nil: "ps \<noteq> [] \<Longrightarrow> Join_nl ([] # ps) = CHR 0x0A # Join_nl ps"
  by (cases ps) simp_all

lemma Join_nl_Split_nl: "Join_nl (Split_nl t) = t"
  by (induction t) (auto split: list.splits simp: Split_nl_not_Nil Join_nl_Cons Join_nl_Nil)

lemma Split_nl_length: "length (Split_nl t) = Suc (count_list t (CHR 0x0A))"
  by (induction t) (auto split: list.splits simp: Split_nl_not_Nil)

lemma Split_nl_append_nl: "last (Split_nl (t @ [CHR 0x0A])) = []"
proof (induction t)
  case Nil
  show ?case by simp
next
  case (Cons c t)
  have "length (Split_nl (t @ [CHR 0x0A])) = Suc (Suc (count_list t (CHR 0x0A)))"
    by (simp add: Split_nl_length)
  then obtain p q qs where "Split_nl (t @ [CHR 0x0A]) = p # q # qs"
    by (cases "Split_nl (t @ [CHR 0x0A])"; cases "tl (Split_nl (t @ [CHR 0x0A]))") auto
  with Cons show ?case by simp
qed

lemma Split_nl_last: "suffix [CHR 0x0A] t \<Longrightarrow> last (Split_nl t) = []"
  by (auto simp: suffix_def Split_nl_append_nl)

lemma revlist_Inr:
  "fst (revlist X path ref s) = Inr revs \<longleftrightarrow>
     run_err (run X (trace s) (git_command (quote X) path [] True [''rev-list'', ref])) = None \<and>
     revs = Split_nl (out (run X (trace s) (git_command (quote X) path [] True [''rev-list'', ref])))"
  by (auto simp: revlist_def execGitCmd_def Let_def split: option.splits)

subsection \<open>CommitAndPush, step by step\<close>





subsection \<open>The claims about package git\<close>





text \<open>
  C5. \<open>GetNote\<close> tells a missing note from one that does not decode. Git reports a
  revision without a note by failing \<open>git notes show\<close>; then \<open>GetNote\<close> returns the error
  of that run (the exit error, or the fatal line of the diagnostics), which is not a
  decode error. When the command succeeds the note's body is decoded, and the result is
  the note or the decode error. A decode error is returned only when the command
  succeeded, that is when a body was there.
\<close>

theorem GetNote_absent_or_decode_error:
  fixes X :: "'spec ext"
  shows
    "(run_err (run X (trace s)
          (git_command (quote X) (Dir c) [] True
             [''notes'', ''--ref'', realNotesRef c, ''show'', revision])) \<noteq> None \<longrightarrow>
        (\<exists>m. fst (GetNote X c revision s) = Inl (ExitError m) \<or>
              fst (GetNote X c revision s) = Inl (ErrorsNew m))) \<and>
     (run_err (run X (trace s)
          (git_command (quote X) (Dir c) [] True
             [''notes'', ''--ref'', realNotesRef c, ''show'', revision])) = None \<longrightarrow>
        fst (GetNote X c revision s) =
          (case json_decode X (out (run X (trace s)
                  (git_command (quote X) (Dir c) [] True
                     [''notes'', ''--ref'', realNotesRef c, ''show'', revision]))) of
             Inl d \<Rightarrow> Inl (DecodeError d)
           | Inr n \<Rightarrow> Inr n)) \<and>
     ((\<exists>d. fst (GetNote X c revision s) = Inl (DecodeError d)) \<longrightarrow>
        run_err (run X (trace s)
          (git_command (quote X) (Dir c) [] True
             [''notes'', ''--ref'', realNotesRef c, ''show'', revision])) = None)"
proof -
  obtain e outp s' where
    ex: "execGitCmd X (Dir c) [] True [''notes'', ''--ref'', realNotesRef c, ''show'', revision] s
           = ((e, outp), s')"
    by (metis surj_pair)
  from execGitCmd_run[OF ex] ex show ?thesis
    by (auto simp: GetNote_def getNote_def split: sum.splits option.splits)
qed

theorem GetNote_absent_or_decode_error_witness:
  "fst (GetNote (scripted [failed_result ''error: no note found for object abc.'']) clone1 ''abc'' st0)
     = Inl (ExitError ''exit status 1'') \<and>
   fst (GetNote (scripted [ok_result []]) clone1 ''abc'' st0) = Inl (DecodeError ''EOF'')"
proof -
  have a: "run_err (run (scripted [failed_result ''error: no note found for object abc.'']) (trace st0)
          (git_command (quote (scripted [failed_result ''error: no note found for object abc.'']))
             (Dir clone1) [] True
             [''notes'', ''--ref'', realNotesRef clone1, ''show'', ''abc''])) \<noteq> None"
    by (simp add: scripted_def st0_def failed_result_def)
  have b: "run_err (run (scripted [ok_result []]) (trace st0)
          (git_command (quote (scripted [ok_result []])) (Dir clone1) [] True
             [''notes'', ''--ref'', realNotesRef clone1, ''show'', ''abc''])) = None"
    by (simp add: scripted_def st0_def ok_result_def)
  have c: "findFatalMessage ''error: no note found for object abc.'' = []"
    by (simp add: findFatalMessage_def dropCR_def)
  show ?thesis
    using a b
      GetNote_absent_or_decode_error
        [of "scripted [failed_result ''error: no note found for object abc.'']" st0 clone1 "''abc''"]
      GetNote_absent_or_decode_error [of "scripted [ok_result []]" st0 clone1 "''abc''"]
    by (simp add: GetNote_def getNote_def execGitCmd_def scripted_def st0_def ok_result_def
          failed_result_def c Let_def)
qed

text \<open>
  C6. \<open>Clean\<close> has no result, so no error reaches the caller whatever \<open>os.RemoveAll\<close>
  returns: the file system it leaves is the one \<open>os.RemoveAll\<close> leaves, its error
  dropped. On a checkout with an empty \<open>Dir\<close>, the zero value among them, \<open>Clean\<close> leaves
  the file system as it is. Where removing a path a second time changes nothing more,
  \<open>Clean\<close> after \<open>Clean\<close> leaves what one \<open>Clean\<close> leaves.
\<close>

theorem Clean_idempotent:
  "Clean RemoveAll zero_Checkout fs = fs \<and>
   (Dir c = [] \<longrightarrow> Clean RemoveAll c fs = fs) \<and>
   (Dir c \<noteq> [] \<longrightarrow> Clean RemoveAll c fs = snd (RemoveAll (Dir c) fs)) \<and>
   ((\<forall>p f. snd (RemoveAll p (snd (RemoveAll p f))) = snd (RemoveAll p f)) \<longrightarrow>
      Clean RemoveAll c (Clean RemoveAll c fs) = Clean RemoveAll c fs)"
  by (simp add: Clean_def zero_Checkout_def)

theorem Clean_idempotent_witness:
  "Clean RemoveAll_paths clone1
     [''/tmp/flux-gitclone1'', ''/tmp/flux-gitclone1/repo'', ''/tmp/flux-gitclone1/repo/a.yaml'',
      ''/tmp/flux-gitclone1/repository''] =
     [''/tmp/flux-gitclone1'', ''/tmp/flux-gitclone1/repository''] \<and>
   Clean RemoveAll_paths clone1 (Clean RemoveAll_paths clone1
     [''/tmp/flux-gitclone1'', ''/tmp/flux-gitclone1/repo'', ''/tmp/flux-gitclone1/repo/a.yaml'',
      ''/tmp/flux-gitclone1/repository'']) =
     [''/tmp/flux-gitclone1'', ''/tmp/flux-gitclone1/repository''] \<and>
   Clean RemoveAll_paths zero_Checkout [''/etc/passwd''] = [''/etc/passwd'']"
proof -
  let ?fs = "[''/tmp/flux-gitclone1'', ''/tmp/flux-gitclone1/repo'',
    ''/tmp/flux-gitclone1/repo/a.yaml'', ''/tmp/flux-gitclone1/repository'']"
  have twice: "\<forall>p f. snd (RemoveAll_paths p (snd (RemoveAll_paths p f))) = snd (RemoveAll_paths p f)"
    by (simp add: RemoveAll_paths_def)
  have dir: "Dir clone1 \<noteq> []"
    by (simp add: clone1_def)
  have once: "snd (RemoveAll_paths (Dir clone1) ?fs) =
     [''/tmp/flux-gitclone1'', ''/tmp/flux-gitclone1/repository'']"
    by (simp add: RemoveAll_paths_def below_def clone1_def)
  note inst = Clean_idempotent [of RemoveAll_paths ?fs clone1]
  from inst dir once
  have one: "Clean RemoveAll_paths clone1 ?fs =
     [''/tmp/flux-gitclone1'', ''/tmp/flux-gitclone1/repository'']"
    by simp
  from inst twice
  have two: "Clean RemoveAll_paths clone1 (Clean RemoveAll_paths clone1 ?fs) =
     Clean RemoveAll_paths clone1 ?fs"
    by blast
  from Clean_idempotent [of RemoveAll_paths "[''/etc/passwd'']" clone1]
  have zero: "Clean RemoveAll_paths zero_Checkout [''/etc/passwd''] = [''/etc/passwd'']"
    by blast
  from one two zero show ?thesis
    by simp
qed



text \<open>
  C10. A successful \<open>RevisionsBetween\<close> or \<open>RevisionsBefore\<close> returns the standard output
  of \<open>git rev-list\<close> (for the range \<open>ref1..ref2\<close>, or for \<open>ref\<close>) split at the newline
  character: joining the pieces with newlines gives the output back. The list is never
  empty, an empty output gives the one piece \<open>""\<close>, and an output that ends in a newline
  gives a list whose last element is the empty string.
\<close>

theorem Revisions_split_on_newline:
  fixes X :: "'spec ext"
  shows
    "(fst (RevisionsBetween X c ref1 ref2 s) = Inr revs \<longrightarrow>
        run_err (run X (trace s)
          (git_command (quote X) (Dir c) [] True [''rev-list'', ref1 @ ''..'' @ ref2])) = None \<and>
        revs = Split_nl (out (run X (trace s)
          (git_command (quote X) (Dir c) [] True [''rev-list'', ref1 @ ''..'' @ ref2]))) \<and>
        Join_nl revs = out (run X (trace s)
          (git_command (quote X) (Dir c) [] True [''rev-list'', ref1 @ ''..'' @ ref2])) \<and>
        revs \<noteq> [] \<and>
        (suffix [CHR 0x0A] (out (run X (trace s)
          (git_command (quote X) (Dir c) [] True [''rev-list'', ref1 @ ''..'' @ ref2]))) \<longrightarrow>
           last revs = [])) \<and>
     (fst (RevisionsBefore X c ref s) = Inr revs' \<longrightarrow>
        run_err (run X (trace s)
          (git_command (quote X) (Dir c) [] True [''rev-list'', ref])) = None \<and>
        revs' = Split_nl (out (run X (trace s)
          (git_command (quote X) (Dir c) [] True [''rev-list'', ref]))) \<and>
        Join_nl revs' = out (run X (trace s)
          (git_command (quote X) (Dir c) [] True [''rev-list'', ref])) \<and>
        revs' \<noteq> [] \<and>
        (suffix [CHR 0x0A] (out (run X (trace s)
          (git_command (quote X) (Dir c) [] True [''rev-list'', ref]))) \<longrightarrow>
           last revs' = [])) \<and>
     Split_nl [] = [[]]"
proof -
  have piece: "run_err (run X (trace s) (git_command (quote X) d [] True [''rev-list'', r])) = None \<and>
      l = Split_nl (out (run X (trace s) (git_command (quote X) d [] True [''rev-list'', r]))) \<and>
      Join_nl l = out (run X (trace s) (git_command (quote X) d [] True [''rev-list'', r])) \<and>
      l \<noteq> [] \<and>
      (suffix [CHR 0x0A] (out (run X (trace s) (git_command (quote X) d [] True [''rev-list'', r])))
         \<longrightarrow> last l = [])"
    if "fst (revlist X d r s) = Inr l" for d r l
  proof -
    from that have ok: "run_err (run X (trace s) (git_command (quote X) d [] True [''rev-list'', r])) = None"
      and l: "l = Split_nl (out (run X (trace s) (git_command (quote X) d [] True [''rev-list'', r])))"
      unfolding revlist_Inr by blast+
    show ?thesis
      unfolding l using ok Split_nl_not_Nil Join_nl_Split_nl Split_nl_last by blast
  qed
  have empty: "Split_nl [] = [[]]"
    by simp
  show ?thesis
    using piece[of "Dir c" "ref1 @ ''..'' @ ref2" revs] piece[of "Dir c" ref revs'] empty
    unfolding RevisionsBetween_def RevisionsBefore_def by blast
qed


theorem Revisions_split_on_newline_witness:
  "fst (RevisionsBetween (scripted [ok_result [CHR ''a'', CHR 0x0A, CHR ''b'', CHR 0x0A]])
          clone1 ''x'' ''y'' st0) = Inr [''a'', ''b'', []] \<and>
   fst (RevisionsBefore (scripted [ok_result []]) clone1 ''x'' st0) = Inr [[]] \<and>
   last [''a'', ''b'', []] = ([] :: string)"
proof -
  let ?X = "scripted [ok_result [CHR ''a'', CHR 0x0A, CHR ''b'', CHR 0x0A]]"
  have a: "fst (RevisionsBetween ?X clone1 ''x'' ''y'' st0) = Inr [''a'', ''b'', []]"
    by (simp add: RevisionsBetween_def revlist_def execGitCmd_def scripted_def st0_def
          ok_result_def Let_def)
  have b: "fst (RevisionsBefore (scripted [ok_result []]) clone1 ''x'' st0) = Inr [[]]"
    by (simp add: RevisionsBefore_def revlist_def execGitCmd_def scripted_def st0_def
          ok_result_def Let_def)
  have c: "suffix [CHR 0x0A] (out (run ?X (trace st0)
      (git_command (quote ?X) (Dir clone1) [] True [''rev-list'', ''x'' @ ''..'' @ ''y''])))"
    by (simp add: scripted_def st0_def ok_result_def suffix_def)
  from a c Revisions_split_on_newline
        [of ?X clone1 "''x''" "''y''" st0 "[''a'', ''b'', []]" "''x''" "[[]]"]
  have l: "last [''a'', ''b'', []] = ([] :: string)"
    by blast
  from a b l show ?thesis
    by blast
qed

section \<open>Properties of the backoff loop\<close>

lemma backoff_loop_timeout:
  "\<not> clock w < finish \<Longrightarrow> backoff_loop f fa md finish d w = Some (Some ErrTimeout, w)"
  by (subst backoff_loop.simps) simp

lemma backoff_loop_done:
  "clock w < finish \<Longrightarrow> invoke f w = ((ok, err), w1) \<Longrightarrow> ok \<or> err \<noteq> None \<Longrightarrow>
     backoff_loop f fa md finish d w = Some (err, w1)"
  by (subst backoff_loop.simps) auto

lemma backoff_loop_again:
  "clock w < finish \<Longrightarrow> invoke f w = ((False, None), w1) \<Longrightarrow>
     backoff_loop f fa md finish d w =
       backoff_loop f fa md finish (min_duration (d * fa) md)
         (sleep_if_time finish d w1)"
  by (subst backoff_loop.simps) simp

lemma invoke_clock:
  "invoke f w = (r, w1) \<Longrightarrow> clock w1 = clock w + snd (snd (f (vars w) (clock w))) \<and> events w1 = events w @ [Invoked]"
  by (auto simp: invoke_def split: prod.splits)

lemma Sleep_clock: "clock w \<le> clock (Sleep d w)"
  by (simp add: Sleep_def)

lemma backoff_loop_returns:
  assumes progress: "\<And>u t. 1 \<le> snd (snd (f u t))"
  shows "\<exists>y. backoff_loop f fa md finish d w = Some y"
proof (induction "nat (finish - clock w)" arbitrary: d w rule: less_induct)
  case less
  show ?case
  proof (cases "clock w < finish")
    case False
    then show ?thesis by (simp add: backoff_loop_timeout)
  next
    case True
    obtain ok err w1 where inv: "invoke f w = ((ok, err), w1)"
      by (metis surj_pair)
    show ?thesis
    proof (cases "ok \<or> err \<noteq> None")
      case True
      with \<open>clock w < finish\<close> inv show ?thesis by (simp add: backoff_loop_done)
    next
      case False
      then have inv': "invoke f w = ((False, None), w1)" using inv by simp
      let ?w2 = "sleep_if_time finish d w1"
      from invoke_clock[OF inv] progress[of "vars w" "clock w"] have "clock w < clock w1" by simp
      moreover have "clock w1 \<le> clock ?w2" by (simp add: sleep_if_time_def Sleep_clock)
      ultimately have "nat (finish - clock ?w2) < nat (finish - clock w)"
        using True by linarith
      from less[OF this] show ?thesis
        using backoff_loop_again[OF True inv'] by simp
    qed
  qed
qed

text \<open>What a returned result says.\<close>

lemma backoff_loop_result:
  assumes "backoff_loop f fa md finish d w = Some y"
  shows "(fst y = Some ErrTimeout \<and> finish \<le> clock (snd y)) \<or>
     (\<exists>w0 ok. clock w0 < finish \<and> invoke f w0 = ((ok, fst y), snd y) \<and> (ok \<or> fst y \<noteq> None))"
proof (rule backoff_loop.raw_induct
    [where P = "\<lambda>f fa md finish d w y. (fst y = Some ErrTimeout \<and> finish \<le> clock (snd y)) \<or>
     (\<exists>w0 ok. clock w0 < finish \<and> invoke f w0 = ((ok, fst y), snd y) \<and> (ok \<or> fst y \<noteq> None))",
     OF _ assms])
  fix loop :: "'a predicate \<Rightarrow> duration \<Rightarrow> duration \<Rightarrow> int \<Rightarrow> duration \<Rightarrow> 'a world \<Rightarrow> (error option \<times> 'a world) option"
  fix f factor maxDelay finish delay w y
  assume IH: "\<And>f factor maxDelay finish delay w y.
        loop f factor maxDelay finish delay w = Some y \<Longrightarrow>
        (fst y = Some ErrTimeout \<and> finish \<le> clock (snd y)) \<or>
        (\<exists>w0 ok. clock w0 < finish \<and> invoke f w0 = ((ok, fst y), snd y) \<and> (ok \<or> fst y \<noteq> None))"
  assume body: "(if clock w < finish
      then case invoke f w of
           ((ok, err), w1) \<Rightarrow>
             if ok \<or> err \<noteq> None then Some (err, w1)
             else loop f factor maxDelay finish
                   (min_duration (delay * factor) maxDelay)
                   (sleep_if_time finish delay w1)
      else Some (Some ErrTimeout, w)) = Some y"
  show "(fst y = Some ErrTimeout \<and> finish \<le> clock (snd y)) \<or>
        (\<exists>w0 ok. clock w0 < finish \<and> invoke f w0 = ((ok, fst y), snd y) \<and> (ok \<or> fst y \<noteq> None))"
  proof (cases "clock w < finish")
    case False
    with body show ?thesis by auto
  next
    case True
    obtain ok err w1 where inv: "invoke f w = ((ok, err), w1)"
      by (metis surj_pair)
    show ?thesis
    proof (cases "ok \<or> err \<noteq> None")
      case True
      with \<open>clock w < finish\<close> inv body have "y = (err, w1)" by simp
      with True \<open>clock w < finish\<close> inv show ?thesis by (intro disjI2 exI[of _ w] exI[of _ ok]) simp
    next
      case False
      with \<open>clock w < finish\<close> inv body
      have "loop f factor maxDelay finish (min_duration (delay * factor) maxDelay)
              (sleep_if_time finish delay w1) = Some y"
        by simp
      from IH[OF this] show ?thesis .
    qed
  qed
qed


lemma follows_Invoked:
  "evs = [] \<or> hd evs = Invoked \<Longrightarrow> follows i fa mf n (Invoked # evs) = follows i fa mf (Suc n) evs"
  by (cases evs) auto

lemma backoff_loop_follows:
  assumes "backoff_loop f fa md finish d w = Some y"
  shows "\<forall>i mf n. md = i * mf \<and> d = delay_at i fa mf n \<longrightarrow>
     (\<exists>evs. events (snd y) = events w @ evs \<and> (evs = [] \<or> hd evs = Invoked) \<and> follows i fa mf n evs)"
proof (rule backoff_loop.raw_induct
    [where P = "\<lambda>f fa md finish d w y. \<forall>i mf n. md = i * mf \<and> d = delay_at i fa mf n \<longrightarrow>
     (\<exists>evs. events (snd y) = events w @ evs \<and> (evs = [] \<or> hd evs = Invoked) \<and> follows i fa mf n evs)",
     OF _ assms])
  fix loop :: "'a predicate \<Rightarrow> duration \<Rightarrow> duration \<Rightarrow> int \<Rightarrow> duration \<Rightarrow> 'a world \<Rightarrow> (error option \<times> 'a world) option"
  fix f factor maxDelay finish delay w y
  assume IH: "\<And>f factor maxDelay finish delay w y.
        loop f factor maxDelay finish delay w = Some y \<Longrightarrow>
        \<forall>i mf n. maxDelay = i * mf \<and> delay = delay_at i factor mf n \<longrightarrow>
     (\<exists>evs. events (snd y) = events w @ evs \<and> (evs = [] \<or> hd evs = Invoked) \<and> follows i factor mf n evs)"
  assume body: "(if clock w < finish
      then case invoke f w of
           ((ok, err), w1) \<Rightarrow>
             if ok \<or> err \<noteq> None then Some (err, w1)
             else loop f factor maxDelay finish
                   (min_duration (delay * factor) maxDelay)
                   (sleep_if_time finish delay w1)
      else Some (Some ErrTimeout, w)) = Some y"
  show "\<forall>i mf n. maxDelay = i * mf \<and> delay = delay_at i factor mf n \<longrightarrow>
     (\<exists>evs. events (snd y) = events w @ evs \<and> (evs = [] \<or> hd evs = Invoked) \<and> follows i factor mf n evs)"
  proof (intro allI impI, elim conjE)
    fix i mf n
    assume md: "maxDelay = i * mf" and d: "delay = delay_at i factor mf n"
    show "\<exists>evs. events (snd y) = events w @ evs \<and> (evs = [] \<or> hd evs = Invoked) \<and> follows i factor mf n evs"
    proof (cases "clock w < finish")
      case False
      with body have "y = (Some ErrTimeout, w)" by simp
      then show ?thesis by (intro exI[of _ "[]"]) simp
    next
      case True
      obtain ok err w1 where inv: "invoke f w = ((ok, err), w1)"
        by (metis surj_pair)
      from invoke_clock[OF inv] have ev1: "events w1 = events w @ [Invoked]" by simp
      show ?thesis
      proof (cases "ok \<or> err \<noteq> None")
        case True
        with \<open>clock w < finish\<close> inv body have "y = (err, w1)" by simp
        with ev1 show ?thesis by (intro exI[of _ "[Invoked]"]) simp
      next
        case False
        let ?w2 = "sleep_if_time finish delay w1"
        from False \<open>clock w < finish\<close> inv body
        have "loop f factor maxDelay finish (min_duration (delay * factor) maxDelay) ?w2 = Some y"
          by simp
        from IH[OF this, rule_format, of i mf "Suc n"] md d
        obtain evs where evs: "events (snd y) = events ?w2 @ evs"
          "evs = [] \<or> hd evs = Invoked" "follows i factor mf (Suc n) evs"
          by auto
        show ?thesis
        proof (cases "clock w1 + sint delay < finish")
          case True
          with evs ev1 d show ?thesis
            by (intro exI[of _ "Invoked # Slept delay # evs"]) (simp add: sleep_if_time_def Sleep_def)
        next
          case False
          with evs ev1 show ?thesis
            by (intro exI[of _ "Invoked # evs"]) (simp add: sleep_if_time_def follows_Invoked)
        qed
      qed
    qed
  qed
qed

lemma sint_mult_in_range:
  fixes a b :: duration
  assumes "- (2 ^ 63) \<le> sint a * sint b" "sint a * sint b < 2 ^ 63"
  shows "sint (a * b) = sint a * sint b"
  using assms by (simp add: sint_word_ariths signed_take_bit_int_eq_self)

lemma sint_min_duration: "sint (min_duration a b) = min (sint a) (sint b)"
  by (simp add: min_duration_def word_sless_alt min_def)

lemma delay_at_bounds:
  fixes i fa mf :: duration
  assumes i: "0 \<le> sint i" and fa: "1 \<le> sint fa" and mf: "1 \<le> sint mf"
    and range: "sint i * sint mf * sint fa < 2 ^ 63"
  shows "sint (i * mf) = sint i * sint mf \<and>
         sint i \<le> sint (delay_at i fa mf n) \<and>
         sint (delay_at i fa mf n) \<le> sint (i * mf) \<and>
         sint (delay_at i fa mf (Suc n)) =
           min (sint (delay_at i fa mf n) * sint fa) (sint (i * mf)) \<and>
         sint (delay_at i fa mf n) \<le> sint (delay_at i fa mf (Suc n))"
proof -
  have cap0: "0 \<le> sint i * sint mf"
    using i mf by simp
  have cap_le: "sint i * sint mf \<le> sint i * sint mf * sint fa"
    using cap0 fa by (simp add: mult_le_cancel_left1)
  have cap: "sint (i * mf) = sint i * sint mf"
    using cap0 cap_le range by (intro sint_mult_in_range) linarith+
  have i_le_cap: "sint i \<le> sint i * sint mf"
    using i mf by (simp add: mult_le_cancel_left1)
  have step: "sint (d * fa) = sint d * sint fa \<and> sint d \<le> sint d * sint fa"
    if lo: "sint i \<le> sint d" and hi: "sint d \<le> sint i * sint mf" for d :: duration
  proof -
    have d0: "0 \<le> sint d" using i lo by linarith
    have "sint d * sint fa \<le> sint i * sint mf * sint fa"
      using hi fa by (intro mult_right_mono) linarith+
    moreover have ge: "sint d \<le> sint d * sint fa"
      using d0 fa by (simp add: mult_le_cancel_left1)
    ultimately have "sint (d * fa) = sint d * sint fa"
      using d0 range by (intro sint_mult_in_range) linarith+
    with ge show ?thesis by simp
  qed
  have inv: "sint i \<le> sint (delay_at i fa mf n) \<and> sint (delay_at i fa mf n) \<le> sint i * sint mf"
  proof (induction n)
    case 0
    show ?case using i_le_cap by simp
  next
    case (Suc n)
    from step[of "delay_at i fa mf n"] Suc
    have "sint (delay_at i fa mf n * fa) = sint (delay_at i fa mf n) * sint fa"
      and "sint (delay_at i fa mf n) \<le> sint (delay_at i fa mf n) * sint fa"
      by simp_all
    with Suc i_le_cap show ?case
      by (simp add: sint_min_duration cap)
  qed
  from step[of "delay_at i fa mf n"] inv
  have s: "sint (delay_at i fa mf n * fa) = sint (delay_at i fa mf n) * sint fa"
    and g: "sint (delay_at i fa mf n) \<le> sint (delay_at i fa mf n) * sint fa"
    by simp_all
  show ?thesis
    using cap inv s g by (simp add: sint_min_duration)
qed

lemma invocations_append: "invocations (xs @ ys) = invocations xs + invocations ys"
  by (simp add: invocations_def)

lemma sleep_if_time_invocations:
  "invocations (events (sleep_if_time finish d w)) = invocations (events w)"
  by (simp add: sleep_if_time_def Sleep_def invocations_def)

lemma invoke_invocations:
  "invoke f w = (r, w1) \<Longrightarrow> invocations (events w1) = Suc (invocations (events w))"
  by (auto simp: invoke_def invocations_def split: prod.splits)

subsection \<open>The claims about the backoff loop\<close>

text \<open>
  C9. When the deadline is not after the time the clock shows, the loop returns
  \<open>ErrTimeout\<close> and leaves the world as it found it: the predicate is not invoked, not
  even once. For \<open>backoff\<close> that is the case for every timeout that is zero or negative.
\<close>

theorem backoff_deadline_passed:
  "(\<not> clock w < finish \<longrightarrow>
      backoff_loop f factor maxDelay finish delay w = Some (Some ErrTimeout, w)) \<and>
   (\<not> clock w < clock w + sint timeout \<longrightarrow>
      backoff initialDelay factor maxFactor timeout f w = Some (Some ErrTimeout, w)) \<and>
   (sint timeout \<le> 0 \<longrightarrow>
      backoff initialDelay factor maxFactor timeout f w = Some (Some ErrTimeout, w))"
  by (simp add: backoff_def backoff_loop_timeout)

theorem backoff_deadline_passed_witness:
  "backoff (100 * Millisecond) 2 100 0 never_done world0 = Some (Some ErrTimeout, world0) \<and>
   events world0 = []"
proof -
  have t: "sint (0 :: duration) \<le> 0"
    by simp
  from t backoff_deadline_passed [of world0 0 never_done 2 0 0 0 "100 * Millisecond" 100]
  have "backoff (100 * Millisecond) 2 100 0 never_done world0 = Some (Some ErrTimeout, world0)"
    by blast
  then show ?thesis
    by (simp add: world0_def)
qed

text \<open>
  C2. \<open>backoff\<close> takes the deadline to be the time of its call plus the timeout and runs
  the loop. In the loop, before the deadline, an invocation of the predicate that reports
  done or returns an error ends the loop at once with that error (nil when there is
  none); any other invocation is followed by the next pass. At or after the deadline the
  loop returns \<open>ErrTimeout\<close>. It never hangs: when every invocation of the predicate
  takes time (a nanosecond at least), \<open>backoff\<close> returns, and what it returns is
  either \<open>ErrTimeout\<close> with the deadline passed, or the error (or nil) of an invocation
  made before the deadline that reported done or an error. A predicate that reports done
  with no error on its third invocation, each of the three made before the deadline, is
  invoked three times and \<open>backoff\<close> returns nil, whatever the factor and the maximal
  factor are.
\<close>

theorem backoff_returns:
  "backoff initialDelay factor maxFactor timeout f w =
     backoff_loop f factor (initialDelay * maxFactor) (clock w + sint timeout) initialDelay w \<and>
   (clock v < finish \<and> invoke f v = ((ok, err), v1) \<and> (ok \<or> err \<noteq> None) \<longrightarrow>
      backoff_loop f factor maxDelay finish delay v = Some (err, v1)) \<and>
   (clock v < finish \<and> invoke f v = ((False, None), v1) \<longrightarrow>
      backoff_loop f factor maxDelay finish delay v =
        backoff_loop f factor maxDelay finish (min_duration (delay * factor) maxDelay)
          (sleep_if_time finish delay v1)) \<and>
   (\<not> clock v < finish \<longrightarrow>
      backoff_loop f factor maxDelay finish delay v = Some (Some ErrTimeout, v)) \<and>
   ((\<forall>u t. 1 \<le> snd (snd (f u t))) \<longrightarrow>
      (\<exists>r w'. backoff initialDelay factor maxFactor timeout f w = Some (r, w') \<and>
         ((r = Some ErrTimeout \<and> clock w + sint timeout \<le> clock w') \<or>
          (\<exists>w0 done. clock w0 < clock w + sint timeout \<and> invoke f w0 = ((done, r), w') \<and>
             (done \<or> r \<noteq> None))))) \<and>
   (clock w < clock w + sint timeout \<and>
    invoke f w = ((False, None), w1) \<and>
    clock (sleep_if_time (clock w + sint timeout) initialDelay w1) < clock w + sint timeout \<and>
    invoke f (sleep_if_time (clock w + sint timeout) initialDelay w1) = ((False, None), w2) \<and>
    clock (sleep_if_time (clock w + sint timeout)
       (min_duration (initialDelay * factor) (initialDelay * maxFactor)) w2)
      < clock w + sint timeout \<and>
    invoke f (sleep_if_time (clock w + sint timeout)
       (min_duration (initialDelay * factor) (initialDelay * maxFactor)) w2) = ((True, None), w3) \<longrightarrow>
      backoff initialDelay factor maxFactor timeout f w = Some (None, w3) \<and>
      invocations (events w3) = invocations (events w) + 3)"
proof -
  let ?fin = "clock w + sint timeout"
  let ?md = "initialDelay * maxFactor"
  have unfold: "backoff initialDelay factor maxFactor timeout f w =
     backoff_loop f factor ?md ?fin initialDelay w"
    by (simp add: backoff_def)
  have returns: "\<exists>r w'. backoff initialDelay factor maxFactor timeout f w = Some (r, w') \<and>
         ((r = Some ErrTimeout \<and> ?fin \<le> clock w') \<or>
          (\<exists>w0 done. clock w0 < ?fin \<and> invoke f w0 = ((done, r), w') \<and> (done \<or> r \<noteq> None)))"
    if progress: "\<forall>u t. 1 \<le> snd (snd (f u t))"
  proof -
    from progress have "\<And>u t. 1 \<le> snd (snd (f u t))" by blast
    from backoff_loop_returns[of f factor ?md ?fin initialDelay w, OF this]
    obtain y where y: "backoff_loop f factor ?md ?fin initialDelay w = Some y" by blast
    from backoff_loop_result[OF y] y unfold show ?thesis
      by (cases y) auto
  qed
  have third: "backoff initialDelay factor maxFactor timeout f w = Some (None, w3) \<and>
      invocations (events w3) = invocations (events w) + 3"
    if c0: "clock w < ?fin" and i1: "invoke f w = ((False, None), w1)"
      and c1: "clock (sleep_if_time ?fin initialDelay w1) < ?fin"
      and i2: "invoke f (sleep_if_time ?fin initialDelay w1) = ((False, None), w2)"
      and c2: "clock (sleep_if_time ?fin (min_duration (initialDelay * factor) ?md) w2) < ?fin"
      and i3: "invoke f (sleep_if_time ?fin (min_duration (initialDelay * factor) ?md) w2)
                 = ((True, None), w3)"
  proof -
    have "backoff_loop f factor ?md ?fin initialDelay w = Some (None, w3)"
      by (simp add: backoff_loop_again[OF c0 i1] backoff_loop_again[OF c1 i2]
            backoff_loop_done[OF c2 i3])
    moreover have "invocations (events w3) = invocations (events w) + 3"
      using invoke_invocations[OF i1] invoke_invocations[OF i2] invoke_invocations[OF i3]
      by (simp add: sleep_if_time_invocations)
    ultimately show ?thesis using unfold by simp
  qed
  show ?thesis
    using unfold returns third
    by (auto simp: backoff_loop_done backoff_loop_again backoff_loop_timeout)
qed


theorem backoff_returns_witness:
  "backoff (100 * Millisecond) 2 100 (1 * Minute) done_on_third world0 =
     Some (None,
       \<lparr>clock = 300003000,
        events = [Invoked, Slept 100000000, Invoked, Slept 200000000, Invoked], vars = 3\<rparr>) \<and>
   invocations [Invoked, Slept 100000000, Invoked, Slept 200000000, Invoked] = 3 \<and>
   backoff (500 * Millisecond) 2 100 (500 * Millisecond) never_done world0 =
     Some (Some ErrTimeout,
       \<lparr>clock = 500000000, events = [Invoked, Invoked, Invoked, Invoked, Invoked], vars = 5\<rparr>)"
proof -
  let ?w1 = "\<lparr>clock = 1000, events = [Invoked], vars = Suc 0\<rparr> :: nat world"
  let ?w2 = "\<lparr>clock = 100002000, events = [Invoked, Slept 100000000, Invoked],
              vars = Suc (Suc 0)\<rparr> :: nat world"
  let ?w3 = "\<lparr>clock = 300003000,
              events = [Invoked, Slept 100000000, Invoked, Slept 200000000, Invoked],
              vars = 3\<rparr> :: nat world"
  have ms: "sint (100 * Millisecond) = 100000000"
    by (simp add: Millisecond_def)
  have mn: "sint Minute = 60000000000"
    by (simp add: Minute_def)
  have d1: "min_duration (100 * Millisecond * 2) (100 * Millisecond * 100) = 200000000"
    by (simp add: Millisecond_def min_duration_def word_sless_alt)
  have c0: "clock world0 < clock world0 + sint (1 * Minute)"
    by (simp add: mn world0_def)
  have i1: "invoke done_on_third world0 = ((False, None), ?w1)"
    by (simp add: invoke_def done_on_third_def world0_def)
  have s1: "sleep_if_time (clock world0 + sint (1 * Minute)) (100 * Millisecond) ?w1 =
      \<lparr>clock = 100001000, events = [Invoked, Slept 100000000], vars = Suc 0\<rparr>"
    by (simp add: sleep_if_time_def Sleep_def ms mn world0_def Millisecond_def)
  have i2: "invoke done_on_third
      (sleep_if_time (clock world0 + sint (1 * Minute)) (100 * Millisecond) ?w1) =
      ((False, None), ?w2)"
    unfolding s1 by (simp add: invoke_def done_on_third_def)
  have s2: "sleep_if_time (clock world0 + sint (1 * Minute))
      (min_duration (100 * Millisecond * 2) (100 * Millisecond * 100)) ?w2 =
      \<lparr>clock = 300002000, events = [Invoked, Slept 100000000, Invoked, Slept 200000000],
       vars = Suc (Suc 0)\<rparr>"
    unfolding d1 by (simp add: sleep_if_time_def Sleep_def mn world0_def)
  have i3: "invoke done_on_third
      (sleep_if_time (clock world0 + sint (1 * Minute))
         (min_duration (100 * Millisecond * 2) (100 * Millisecond * 100)) ?w2) =
      ((True, None), ?w3)"
    unfolding s2 by (simp add: invoke_def done_on_third_def)
  have c1: "clock (sleep_if_time (clock world0 + sint (1 * Minute)) (100 * Millisecond) ?w1)
      < clock world0 + sint (1 * Minute)"
    unfolding s1 by (simp add: mn world0_def)
  have c2: "clock (sleep_if_time (clock world0 + sint (1 * Minute))
         (min_duration (100 * Millisecond * 2) (100 * Millisecond * 100)) ?w2)
      < clock world0 + sint (1 * Minute)"
    unfolding s2 by (simp add: mn world0_def)
  from c0 i1 c1 i2 c2 i3
    backoff_returns [where initialDelay = "100 * Millisecond" and factor = 2 and maxFactor = 100
      and timeout = "1 * Minute" and f = done_on_third and w = world0
      and ?w1.0 = ?w1 and ?w2.0 = ?w2 and ?w3.0 = ?w3]
  have third: "backoff (100 * Millisecond) 2 100 (1 * Minute) done_on_third world0 = Some (None, ?w3)
      \<and> invocations (events ?w3) = invocations (events world0) + 3"
    by blast
  have progress: "\<forall>u t. 1 \<le> snd (snd (never_done u t))"
    by (simp add: never_done_def)
  from progress
    backoff_returns [where initialDelay = "500 * Millisecond" and factor = 2 and maxFactor = 100
      and timeout = "500 * Millisecond" and f = never_done and w = world0]
  have "\<exists>r w'. backoff (500 * Millisecond) 2 100 (500 * Millisecond) never_done world0 = Some (r, w')"
    by blast
  moreover have "backoff (500 * Millisecond) 2 100 (500 * Millisecond) never_done world0 =
     Some (Some ErrTimeout,
       \<lparr>clock = 500000000, events = [Invoked, Invoked, Invoked, Invoked, Invoked], vars = 5\<rparr>)"
    by code_simp
  ultimately show ?thesis
    using third by (simp add: world0_def invocations_def)
qed

text \<open>
  C3, as the claim states it, fails where the maximal factor is below one, where the
  initial delay is negative, and where a product leaves the range of \<open>int64\<close>. With
  the initial delay 100 ms, the factor 2 and the maximal factor 0 the cap is 0: a run
  sleeps 100 ms after the first invocation, above the cap, and 0 after the second. With
  the initial delay -1 ns and the maximal factor 2 the first delay is above the cap -2.
  With the initial delay \<open>2^61\<close> ns, the factor 4 and the maximal factor 2 the first
  delay is below the cap and the second, after the product wrapped around, is smaller.
\<close>

theorem delay_exceeds_cap_counterexample:
  "1 \<le> sint (2 :: duration) \<and>
   backoff 100000000 2 0 Minute done_on_third world0 =
     Some (None,
       \<lparr>clock = 100003000, events = [Invoked, Slept 100000000, Invoked, Slept 0, Invoked],
        vars = 3\<rparr>) \<and>
   \<not> sint (delay_at 100000000 2 0 0) \<le> sint (100000000 * 0 :: duration) \<and>
   \<not> sint (delay_at 100000000 2 0 0) \<le> sint (delay_at 100000000 2 0 1) \<and>
   \<not> sint (delay_at (- 1) 2 2 0) \<le> sint (- 1 * 2 :: duration) \<and>
   1 \<le> sint (4 :: duration) \<and>
   sint (delay_at 2305843009213693952 4 2 0) < sint (2305843009213693952 * 2 :: duration) \<and>
   \<not> sint (delay_at 2305843009213693952 4 2 0) \<le> sint (delay_at 2305843009213693952 4 2 1)"
  by code_simp

text \<open>
  C3, amended. For an initial delay that is not negative, a factor and a maximal factor
  of at least one, and \<open>initialDelay * maxFactor * factor\<close> below \<open>2^63\<close> nanoseconds:
  the delay starts at the initial delay, each next delay is the smaller of the delay
  before times the factor and the cap \<open>initialDelay * maxFactor\<close>, the delays never
  decrease and none exceeds the cap. In every run of \<open>backoff\<close> that returns, each
  invocation of the predicate is followed by no sleep or by one sleep, of the delay of
  that pass.
\<close>

theorem delay_growth:
  "(0 \<le> sint initialDelay \<and> 1 \<le> sint factor \<and> 1 \<le> sint maxFactor \<and>
    sint initialDelay * sint maxFactor * sint factor < 2 ^ 63 \<longrightarrow>
      delay_at initialDelay factor maxFactor 0 = initialDelay \<and>
      sint (initialDelay * maxFactor) = sint initialDelay * sint maxFactor \<and>
      sint (delay_at initialDelay factor maxFactor (Suc n)) =
        min (sint (delay_at initialDelay factor maxFactor n) * sint factor)
            (sint initialDelay * sint maxFactor) \<and>
      sint (delay_at initialDelay factor maxFactor n) \<le>
        sint (delay_at initialDelay factor maxFactor (Suc n)) \<and>
      sint (delay_at initialDelay factor maxFactor n) \<le> sint (initialDelay * maxFactor)) \<and>
   (backoff initialDelay factor maxFactor timeout f w = Some (r, w') \<longrightarrow>
      (\<exists>evs. events w' = events w @ evs \<and> follows initialDelay factor maxFactor 0 evs))"
proof -
  have run: "\<exists>evs. events w' = events w @ evs \<and> follows initialDelay factor maxFactor 0 evs"
    if "backoff initialDelay factor maxFactor timeout f w = Some (r, w')"
  proof -
    from that have "backoff_loop f factor (initialDelay * maxFactor) (clock w + sint timeout)
        initialDelay w = Some (r, w')"
      by (simp add: backoff_def)
    from backoff_loop_follows[OF this, rule_format, of initialDelay maxFactor 0]
    show ?thesis by auto
  qed
  show ?thesis
    using run delay_at_bounds[of initialDelay factor maxFactor n] by auto
qed


theorem delay_growth_witness:
  "sint (delay_at (100 * Millisecond) 2 100 0) = 100000000 \<and>
   sint (delay_at (100 * Millisecond) 2 100 (Suc 0)) = 200000000 \<and>
   sint (delay_at (100 * Millisecond) 2 100 7) \<le>
     sint (delay_at (100 * Millisecond) 2 100 (Suc 7)) \<and>
   sint (delay_at (100 * Millisecond) 2 100 8) \<le> 10000000000 \<and>
   follows (100 * Millisecond) 2 100 0 [Invoked, Slept 100000000, Invoked, Slept 200000000, Invoked]"
proof -
  have ms: "sint (100 * Millisecond) = 100000000"
    by (simp add: Millisecond_def)
  have hyp: "0 \<le> sint (100 * Millisecond) \<and> 1 \<le> sint (2 :: duration) \<and>
      1 \<le> sint (100 :: duration) \<and>
      sint (100 * Millisecond) * sint (100 :: duration) * sint (2 :: duration) < 2 ^ 63"
    by (simp add: ms)
  have run: "backoff (100 * Millisecond) 2 100 (1 * Minute) done_on_third world0 =
     Some (None,
       \<lparr>clock = 300003000,
        events = [Invoked, Slept 100000000, Invoked, Slept 200000000, Invoked], vars = 3\<rparr>)"
    by code_simp
  note at0 = delay_growth [where initialDelay = "100 * Millisecond" and factor = 2
      and maxFactor = 100 and n = 0 and timeout = "1 * Minute" and f = done_on_third
      and w = world0 and r = None
      and w' = "\<lparr>clock = 300003000,
        events = [Invoked, Slept 100000000, Invoked, Slept 200000000, Invoked], vars = 3\<rparr>"]
  note at7 = delay_growth [where initialDelay = "100 * Millisecond" and factor = 2
      and maxFactor = 100 and n = 7 and timeout = "1 * Minute" and f = done_on_third
      and w = world0 and r = None
      and w' = "\<lparr>clock = 300003000,
        events = [Invoked, Slept 100000000, Invoked, Slept 200000000, Invoked], vars = 3\<rparr>"]
  from at0 hyp have a: "sint (delay_at (100 * Millisecond) 2 100 0) = 100000000"
    using ms by simp
  from at0 hyp have "sint (delay_at (100 * Millisecond) 2 100 (Suc 0)) =
        min (sint (delay_at (100 * Millisecond) 2 100 0) * sint (2 :: duration))
            (sint (100 * Millisecond) * sint (100 :: duration))"
    by blast
  with a have b: "sint (delay_at (100 * Millisecond) 2 100 (Suc 0)) = 200000000"
    by (simp only: ms) simp
  from at7 hyp have c: "sint (delay_at (100 * Millisecond) 2 100 7) \<le>
      sint (delay_at (100 * Millisecond) 2 100 (Suc 7))"
    by blast
  from delay_growth [where initialDelay = "100 * Millisecond" and factor = 2
      and maxFactor = 100 and n = 8] hyp
  have "sint (delay_at (100 * Millisecond) 2 100 8) \<le> sint (100 * Millisecond * 100)"
    by blast
  then have d: "sint (delay_at (100 * Millisecond) 2 100 8) \<le> 10000000000"
    by (simp add: Millisecond_def)
  from at0 run have "\<exists>evs. [Invoked, Slept 100000000, Invoked, Slept 200000000, Invoked]
        = events world0 @ evs \<and> follows (100 * Millisecond) 2 100 0 evs"
    by simp
  moreover have "events world0 = []"
    by (simp add: world0_def)
  ultimately have e: "follows (100 * Millisecond) 2 100 0
      [Invoked, Slept 100000000, Invoked, Slept 200000000, Invoked]"
    by (metis append_Nil)
  from a b c d e show ?thesis
    by blast
qed

subsection \<open>Waiting for a job\<close>

lemma awaitJob_poll_mapping:
  assumes "JobStatus (client u) now inst jobID = (reply, t, elapsed)"
  shows "fst (awaitJob_poll JobStatus inst jobID u now) =
     (case reply of
        Inl err \<Rightarrow> (True, Some err)
      | Inr j \<Rightarrow>
          if StatusString j = ''failed'' then (True, Error j)
          else if StatusString j = ''succeeded'' then
            (case Result j of
               Metadata m \<Rightarrow> (True, None)
             | OtherType ty \<Rightarrow> (True, Some (Errorf (''Unknown result type: '' @ ty))))
          else (False, None))"
  using assms
  by (simp add: awaitJob_poll_def StatusFailed_def StatusSucceeded_def split: sum.splits dyn.splits)

lemma awaitJob_poll_commitRef:
  "commitRef (fst (snd (awaitJob_poll JobStatus inst jobID u now))) = commitRef u"
  by (simp add: awaitJob_poll_def split: prod.splits sum.splits dyn.splits)

lemma backoff_loop_vars:
  assumes "backoff_loop f fa md finish d w = Some y"
  shows "(\<forall>u t. I u \<longrightarrow> I (fst (snd (f u t)))) \<longrightarrow> I (vars w) \<longrightarrow> I (vars (snd y))"
proof (rule backoff_loop.raw_induct
    [where P = "\<lambda>f fa md finish d w y.
       (\<forall>u t. I u \<longrightarrow> I (fst (snd (f u t)))) \<longrightarrow> I (vars w) \<longrightarrow> I (vars (snd y))",
     OF _ assms])
  fix loop :: "'a predicate \<Rightarrow> duration \<Rightarrow> duration \<Rightarrow> int \<Rightarrow> duration \<Rightarrow> 'a world \<Rightarrow> (error option \<times> 'a world) option"
  fix f factor maxDelay finish delay w y
  assume IH: "\<And>f factor maxDelay finish delay w y.
        loop f factor maxDelay finish delay w = Some y \<Longrightarrow>
        (\<forall>u t. I u \<longrightarrow> I (fst (snd (f u t)))) \<longrightarrow> I (vars w) \<longrightarrow> I (vars (snd y))"
  assume body: "(if clock w < finish
      then case invoke f w of
           ((ok, err), w1) \<Rightarrow>
             if ok \<or> err \<noteq> None then Some (err, w1)
             else loop f factor maxDelay finish
                   (min_duration (delay * factor) maxDelay)
                   (sleep_if_time finish delay w1)
      else Some (Some ErrTimeout, w)) = Some y"
  show "(\<forall>u t. I u \<longrightarrow> I (fst (snd (f u t)))) \<longrightarrow> I (vars w) \<longrightarrow> I (vars (snd y))"
  proof (intro impI)
    assume pres: "\<forall>u t. I u \<longrightarrow> I (fst (snd (f u t)))" and start: "I (vars w)"
    obtain ok err w1 where inv: "invoke f w = ((ok, err), w1)"
      by (metis surj_pair)
    then have "vars w1 = fst (snd (f (vars w) (clock w)))"
      by (auto simp: invoke_def split: prod.splits)
    with pres start have w1: "I (vars w1)" by simp
    then have w2: "I (vars (sleep_if_time finish delay w1))"
      by (simp add: sleep_if_time_def Sleep_def)
    show "I (vars (snd y))"
    proof (cases "clock w < finish")
      case False
      with body start show ?thesis by auto
    next
      case True
      show ?thesis
      proof (cases "ok \<or> err \<noteq> None")
        case True
        with \<open>clock w < finish\<close> inv body w1 show ?thesis by auto
      next
        case False
        with \<open>clock w < finish\<close> inv body
        have "loop f factor maxDelay finish (min_duration (delay * factor) maxDelay)
                (sleep_if_time finish delay w1) = Some y"
          by simp
        from IH[OF this] pres w2 show ?thesis by blast
      qed
    qed
  qed
qed

lemma awaitJob_value:
  assumes "awaitJob JobStatus inst jobID w = Some ((v, err), w')"
  shows "v = []"
proof -
  let ?w0 = "w\<lparr>vars := (vars w)\<lparr>commitRef := []\<rparr>\<rparr>"
  from assms obtain y where
    y: "backoff_loop (awaitJob_poll JobStatus inst jobID) 2 (100 * Millisecond * 100)
          (clock ?w0 + sint (1 * Minute)) (100 * Millisecond) ?w0 = Some y"
    and v: "v = commitRef (vars (snd y))"
    by (auto simp: awaitJob_def backoff_def Let_def split: option.splits)
  have "\<forall>u t. commitRef u = [] \<longrightarrow>
      commitRef (fst (snd (awaitJob_poll JobStatus inst jobID u t))) = []"
    by (simp add: awaitJob_poll_commitRef)
  with backoff_loop_vars[OF y, of "\<lambda>u. commitRef u = []"]
  have "commitRef (vars (snd y)) = []"
    by simp
  with v show ?thesis by simp
qed

text \<open>
  C4. What \<open>awaitJob\<close> does when the tracker answers that the job succeeded with
  commit-event metadata for revision \<open>deadbeef\<close>: polling ends after that one query with
  no error, the metadata is assigned to the variable \<open>result\<close>, and the value returned
  is that of \<open>commitRef\<close>, the empty string, which no statement assigns. The result of
  the job is not returned.
\<close>

theorem awaitJob_returns_commitRef:
  "awaitJob tracker_succeeded [] ''job1'' await0 =
     Some (([], None),
       \<lparr>clock = 1000, events = [Invoked],
        vars = \<lparr>client = (), result = \<lparr>Revision = ''deadbeef''\<rparr>, commitRef = []\<rparr>\<rparr>)"
  by code_simp

section \<open>Properties of the registration handler\<close>

lemma doRegister_failed:
  "Upgrade D r (response s) = (Inl err, w) \<Longrightarrow>
     doRegister D r newRPCFn s =
       Some (s\<lparr>response := w @ [WriteHeader 400, Write (Sprintf D err)]\<rparr>)"
  by (simp add: doRegister_def StatusBadRequest_def)

text \<open>
  C7. When the upgrade of the connection fails, \<open>doRegister\<close> (and so each of
  \<open>RegisterV4\<close>, \<open>RegisterV5\<close> and \<open>RegisterV6\<close>) calls \<open>WriteHeader\<close> with 400 Bad
  Request on the response, writes the error's text, and returns: \<open>RegisterDaemon\<close> is
  not called, the registry of the service is as it was, and no client is closed.
\<close>

theorem doRegister_upgrade_failure:
  "(fst (Upgrade D r (response s)) = Inl err \<longrightarrow>
      doRegister D r newRPCFn s =
        Some (s\<lparr>response := snd (Upgrade D r (response s)) @
                  [WriteHeader 400, Write (Sprintf D err)]\<rparr>)) \<and>
   (fst (Upgrade D r (response s)) = Inl err \<and> doRegister D r newRPCFn s = Some s' \<longrightarrow>
      service s' = service s \<and> registered s' = registered s \<and> closed s' = closed s \<and>
      response s' = snd (Upgrade D r (response s)) @ [WriteHeader 400, Write (Sprintf D err)]) \<and>
   (fst (Upgrade D r (response s)) = Inl err \<longrightarrow>
      RegisterV4 D r s = doRegister D r newRPCFn s \<and>
      RegisterV5 D r s = doRegister D r newRPCFn s \<and>
      RegisterV6 D r s = doRegister D r newRPCFn s)"
proof (cases "Upgrade D r (response s)")
  case (Pair u w)
  show ?thesis
  proof (cases "u = Inl err")
    case True
    with Pair have up: "Upgrade D r (response s) = (Inl err, w)" by simp
    show ?thesis
      using doRegister_failed[OF up] up
      by (auto simp: RegisterV4_def RegisterV5_def RegisterV6_def)
  next
    case False
    with Pair show ?thesis by simp
  qed
qed

theorem doRegister_upgrade_failure_witness:
  "doRegister deps0 [''GET /''] (NewClientV4 deps0) server0 =
     Some \<lparr>response = [WriteHeader 400, Write ''websocket: not a websocket handshake''],
           service = [], registered = [], closed = []\<rparr> \<and>
   RegisterV6 deps0 [''GET /'', ''Upgrade: websocket''] server0 =
     Some \<lparr>response = [], service = [''default''], registered = [(''default'', ''v6'')],
           closed = [''v6'']\<rparr>"
proof -
  have up: "Upgrade deps0 [''GET /''] (response server0) =
      (Inl ''websocket: not a websocket handshake'', [])"
    by (simp add: deps0_def server0_def)
  then have f: "fst (Upgrade deps0 [''GET /''] (response server0)) =
      Inl ''websocket: not a websocket handshake''"
    by simp
  have sp: "Sprintf deps0 ''websocket: not a websocket handshake'' =
      ''websocket: not a websocket handshake''"
    by (simp add: deps0_def)
  from f doRegister_upgrade_failure
    [of deps0 "[''GET /'']" server0 "''websocket: not a websocket handshake''" "NewClientV4 deps0"]
  have "doRegister deps0 [''GET /''] (NewClientV4 deps0) server0 =
      Some (server0\<lparr>response := snd (Upgrade deps0 [''GET /''] (response server0)) @
        [WriteHeader 400, Write (Sprintf deps0 ''websocket: not a websocket handshake'')]\<rparr>)"
    by blast
  with up sp have a: "doRegister deps0 [''GET /''] (NewClientV4 deps0) server0 =
     Some \<lparr>response = [WriteHeader 400, Write ''websocket: not a websocket handshake''],
           service = [], registered = [], closed = []\<rparr>"
    by (simp add: server0_def)
  have b: "RegisterV6 deps0 [''GET /'', ''Upgrade: websocket''] server0 =
     Some \<lparr>response = [], service = [''default''], registered = [(''default'', ''v6'')],
           closed = [''v6'']\<rparr>"
    by (simp add: RegisterV6_def doRegister_def deps0_def server0_def Let_def)
  from a b show ?thesis
    by simp
qed

end
